theory Spec2Isabelle
  imports Main
begin

section \<open>Strings\<close>

text \<open>
  A JavaScript string is modelled as a \<^typ>\<open>string\<close>; a \<^typ>\<open>char\<close> stands for a code unit
  in the range U+0000 to U+00FF.  Within that range the characters removed by
  \<^verbatim>\<open>String.prototype.trim\<close> (WhiteSpace and LineTerminator) are TAB, LF, VT, FF, CR,
  SPACE and NO-BREAK SPACE.
\<close>

definition is_whitespace :: "char \<Rightarrow> bool" where
  "is_whitespace c = (of_char c \<in> {9, 10, 11, 12, 13, 32, 160 :: nat})"

definition trim :: "string \<Rightarrow> string" where
  "trim s = rev (dropWhile is_whitespace (rev (dropWhile is_whitespace s)))"

text \<open>\<^verbatim>\<open>s.split(sep)[0]\<close> for a one-character separator: the part of \<open>s\<close> before the
  first occurrence of \<open>sep\<close>, or all of \<open>s\<close> when there is none.\<close>

definition split_head :: "char \<Rightarrow> string \<Rightarrow> string" where
  "split_head sep s = takeWhile (\<lambda>c. c \<noteq> sep) s"

section \<open>The built-in Date object\<close>

text \<open>
  The component calls \<^verbatim>\<open>new Date(s).toISOString()\<close>.  The definitions below follow the
  ECMAScript specification (section "Date Objects"): a time value is a number of
  milliseconds since 1970-01-01T00:00:00Z, and \<open>None\<close> stands for NaN (an invalid date).
\<close>

subsection \<open>Days, years, months\<close>

definition msPerDay :: int where
  "msPerDay = 86400000"

definition Day :: "int \<Rightarrow> int" where
  "Day t = t div msPerDay"

definition DaysInYear :: "int \<Rightarrow> int" where
  "DaysInYear y =
     (if y mod 4 \<noteq> 0 then 365
      else if y mod 100 \<noteq> 0 then 366
      else if y mod 400 \<noteq> 0 then 365
      else 366)"

definition DayFromYear :: "int \<Rightarrow> int" where
  "DayFromYear y =
     365 * (y - 1970) + (y - 1969) div 4 - (y - 1901) div 100 + (y - 1601) div 400"

text \<open>
  \<^verbatim>\<open>YearFromTime(t)\<close> is "the largest integer y such that TimeFromYear(y) \<le> t".  It is
  computed by a search upwards from a year that is not after the answer.
\<close>

function year_search :: "int \<Rightarrow> int \<Rightarrow> int" where
  "year_search y d = (if DayFromYear (y + 1) \<le> d then year_search (y + 1) d else y)"
  by pat_completeness auto
termination
proof (relation "measure (\<lambda>(y, d). nat (d - DayFromYear y))")
  show "wf (measure (\<lambda>(y, d). nat (d - DayFromYear y)))"
    by simp
next
  fix y d :: int
  assume a: "DayFromYear (y + 1) \<le> d"
  have "(y - 1968) div 4 \<ge> (y - 1969) div 4"
    by (rule zdiv_mono1) simp_all
  moreover have "(y - 1900) div 100 \<le> (y - 1901) div 100 + 1"
  proof -
    have "(y - 1900) div 100 \<le> (y - 1901 + 100) div 100"
      by (rule zdiv_mono1) simp_all
    then show ?thesis by simp
  qed
  moreover have "(y - 1600) div 400 \<ge> (y - 1601) div 400"
    by (rule zdiv_mono1) simp_all
  ultimately have "DayFromYear y < DayFromYear (y + 1)"
    by (simp add: DayFromYear_def)
  with a show "((y + 1, d), (y, d)) \<in> measure (\<lambda>(y, d). nat (d - DayFromYear y))"
    by simp
qed

definition YearFromTime :: "int \<Rightarrow> int" where
  "YearFromTime t =
     (let d = Day t
      in year_search (1970 + (if 0 \<le> d then d div 366 else d div 365)) d)"

definition InLeapYear :: "int \<Rightarrow> int" where
  "InLeapYear t = (if DaysInYear (YearFromTime t) = 366 then 1 else 0)"

definition DayWithinYear :: "int \<Rightarrow> int" where
  "DayWithinYear t = Day t - DayFromYear (YearFromTime t)"

definition MonthFromTime :: "int \<Rightarrow> int" where
  "MonthFromTime t =
     (let d = DayWithinYear t; L = InLeapYear t
      in if d < 31 then 0
         else if d < 59 + L then 1
         else if d < 90 + L then 2
         else if d < 120 + L then 3
         else if d < 151 + L then 4
         else if d < 181 + L then 5
         else if d < 212 + L then 6
         else if d < 243 + L then 7
         else if d < 273 + L then 8
         else if d < 304 + L then 9
         else if d < 334 + L then 10
         else 11)"

definition DateFromTime :: "int \<Rightarrow> int" where
  "DateFromTime t =
     (let d = DayWithinYear t; L = InLeapYear t; m = MonthFromTime t
      in if m = 0 then d + 1
         else if m = 1 then d - 30
         else if m = 2 then d - 58 - L
         else if m = 3 then d - 89 - L
         else if m = 4 then d - 119 - L
         else if m = 5 then d - 150 - L
         else if m = 6 then d - 180 - L
         else if m = 7 then d - 211 - L
         else if m = 8 then d - 242 - L
         else if m = 9 then d - 272 - L
         else if m = 10 then d - 303 - L
         else d - 333 - L)"

definition HourFromTime :: "int \<Rightarrow> int" where
  "HourFromTime t = (t div 3600000) mod 24"

definition MinFromTime :: "int \<Rightarrow> int" where
  "MinFromTime t = (t div 60000) mod 60"

definition SecFromTime :: "int \<Rightarrow> int" where
  "SecFromTime t = (t div 1000) mod 60"

definition msFromTime :: "int \<Rightarrow> int" where
  "msFromTime t = t mod 1000"

definition MakeTime :: "int \<Rightarrow> int \<Rightarrow> int \<Rightarrow> int \<Rightarrow> int" where
  "MakeTime h m s milli = h * 3600000 + m * 60000 + s * 1000 + milli"

text \<open>The first day of month \<open>mn\<close> (0 to 11) within a year; \<open>L\<close> is 1 in a leap year.\<close>

definition MonthStart :: "int \<Rightarrow> int \<Rightarrow> int" where
  "MonthStart mn L =
     (if mn = 0 then 0
      else if mn = 1 then 31
      else if mn = 2 then 59 + L
      else if mn = 3 then 90 + L
      else if mn = 4 then 120 + L
      else if mn = 5 then 151 + L
      else if mn = 6 then 181 + L
      else if mn = 7 then 212 + L
      else if mn = 8 then 243 + L
      else if mn = 9 then 273 + L
      else if mn = 10 then 304 + L
      else 334 + L)"

definition MakeDay :: "int \<Rightarrow> int \<Rightarrow> int \<Rightarrow> int" where
  "MakeDay year month date =
     (let ym = year + month div 12; mn = month mod 12
      in DayFromYear ym + MonthStart mn (if DaysInYear ym = 366 then 1 else 0) + date - 1)"

definition MakeDate :: "int \<Rightarrow> int \<Rightarrow> int" where
  "MakeDate day time = day * msPerDay + time"

definition TimeClip :: "int \<Rightarrow> int option" where
  "TimeClip t = (if \<bar>t\<bar> \<le> 8640000000000000 then Some t else None)"

subsection \<open>Formatting: toISOString\<close>

definition digit_char :: "int \<Rightarrow> char" where
  "digit_char n = char_of (48 + n)"

fun pad :: "nat \<Rightarrow> int \<Rightarrow> string" where
  "pad 0 n = []"
| "pad (Suc k) n = pad k (n div 10) @ [digit_char (n mod 10)]"

definition year_string :: "int \<Rightarrow> string" where
  "year_string y =
     (if 0 \<le> y \<and> y \<le> 9999 then pad 4 y
      else (if y < 0 then CHR ''-'' else CHR ''+'') # pad 6 \<bar>y\<bar>)"

definition toISOString :: "int \<Rightarrow> string" where
  "toISOString t =
     year_string (YearFromTime t) @ ''-'' @ pad 2 (MonthFromTime t + 1) @ ''-'' @
     pad 2 (DateFromTime t) @ ''T'' @ pad 2 (HourFromTime t) @ '':'' @
     pad 2 (MinFromTime t) @ '':'' @ pad 2 (SecFromTime t) @ ''.'' @
     pad 3 (msFromTime t) @ ''Z''"

datatype error = RangeError

text \<open>\<^verbatim>\<open>Date.prototype.toISOString\<close> throws a RangeError on an invalid date.\<close>

definition Date_toISOString :: "int option \<Rightarrow> error + string" where
  "Date_toISOString tv = (case tv of None \<Rightarrow> Inl RangeError | Some t \<Rightarrow> Inr (toISOString t))"

subsection \<open>Parsing: new Date(string)\<close>

definition is_digit :: "char \<Rightarrow> bool" where
  "is_digit c = (48 \<le> (of_char c :: nat) \<and> (of_char c :: nat) \<le> 57)"

definition digit_val :: "char \<Rightarrow> int" where
  "digit_val c = of_char c - 48"

definition digits_val :: "string \<Rightarrow> int" where
  "digits_val s = foldl (\<lambda>a c. 10 * a + digit_val c) 0 s"

text \<open>Read exactly \<open>k\<close> decimal digits from the front of a string.\<close>

definition digits :: "nat \<Rightarrow> string \<Rightarrow> (int \<times> string) option" where
  "digits k s =
     (if k \<le> length s \<and> list_all is_digit (take k s)
      then Some (digits_val (take k s), drop k s) else None)"

definition expect :: "char \<Rightarrow> string \<Rightarrow> string option" where
  "expect c s = (case s of [] \<Rightarrow> None | x # r \<Rightarrow> if x = c then Some r else None)"

definition DaysInMonth :: "int \<Rightarrow> int \<Rightarrow> int" where
  "DaysInMonth y m =
     (if m = 2 then (if DaysInYear y = 366 then 29 else 28)
      else if m = 4 \<or> m = 6 \<or> m = 9 \<or> m = 11 then 30
      else 31)"

text \<open>
  The calendar date \<^verbatim>\<open>YYYY-MM-DD\<close> of the Date Time String Format, with a month from 01
  to 12 and a day that exists in that month.  The result is the year, month and day and
  the rest of the string.
\<close>

definition parse_date :: "string \<Rightarrow> ((int \<times> int \<times> int) \<times> string) option" where
  "parse_date s =
     (case digits 4 s of None \<Rightarrow> None | Some (y, s1) \<Rightarrow>
      case expect CHR ''-'' s1 of None \<Rightarrow> None | Some s2 \<Rightarrow>
      case digits 2 s2 of None \<Rightarrow> None | Some (m, s3) \<Rightarrow>
      case expect CHR ''-'' s3 of None \<Rightarrow> None | Some s4 \<Rightarrow>
      case digits 2 s4 of None \<Rightarrow> None | Some (d, s5) \<Rightarrow>
      if 1 \<le> m \<and> m \<le> 12 \<and> 1 \<le> d \<and> d \<le> DaysInMonth y m
      then Some ((y, m, d), s5) else None)"

text \<open>
  The time \<^verbatim>\<open>HH:mm:ss\<close> or \<^verbatim>\<open>HH:mm:ss.sss\<close> with an hour from 00 to 23; the result is
  the number of milliseconds since midnight and the rest of the string.
\<close>

definition parse_time :: "string \<Rightarrow> (int \<times> string) option" where
  "parse_time s =
     (case digits 2 s of None \<Rightarrow> None | Some (h, s1) \<Rightarrow>
      case expect CHR '':'' s1 of None \<Rightarrow> None | Some s2 \<Rightarrow>
      case digits 2 s2 of None \<Rightarrow> None | Some (m, s3) \<Rightarrow>
      case expect CHR '':'' s3 of None \<Rightarrow> None | Some s4 \<Rightarrow>
      case digits 2 s4 of None \<Rightarrow> None | Some (sec, s5) \<Rightarrow>
      if h \<le> 23 \<and> m \<le> 59 \<and> sec \<le> 59 then
        (case expect CHR ''.'' s5 of
           None \<Rightarrow> Some (MakeTime h m sec 0, s5)
         | Some s6 \<Rightarrow>
             (case digits 3 s6 of None \<Rightarrow> None
              | Some (milli, s7) \<Rightarrow> Some (MakeTime h m sec milli, s7)))
      else None)"

text \<open>
  The UTC offset that ends a date-time: \<^verbatim>\<open>Z\<close>, \<^verbatim>\<open>+HH:mm\<close> or \<^verbatim>\<open>-HH:mm\<close>; the result is
  the offset in milliseconds east of UTC.
\<close>

definition parse_offset :: "string \<Rightarrow> int option" where
  "parse_offset s =
     (if s = ''Z'' then Some 0
      else case s of [] \<Rightarrow> None | sg # s1 \<Rightarrow>
        if sg = CHR ''+'' \<or> sg = CHR ''-'' then
          (case digits 2 s1 of None \<Rightarrow> None | Some (h, s2) \<Rightarrow>
           case expect CHR '':'' s2 of None \<Rightarrow> None | Some s3 \<Rightarrow>
           case digits 2 s3 of None \<Rightarrow> None | Some (m, s4) \<Rightarrow>
           if s4 = [] \<and> h \<le> 23 \<and> m \<le> 59
           then Some ((if sg = CHR ''-'' then - 1 else 1) * MakeTime h m 0 0)
           else None)
        else None)"

text \<open>
  The strings whose time value the standard fixes on every host: a calendar date alone
  (UTC midnight of that date) and a calendar date, \<^verbatim>\<open>T\<close>, a time and a UTC offset.
\<close>

definition iso_parse :: "string \<Rightarrow> int option" where
  "iso_parse s =
     (case parse_date s of None \<Rightarrow> None | Some ((y, m, d), r) \<Rightarrow>
      if r = [] then Some (MakeDate (MakeDay y (m - 1) d) 0)
      else
        case expect CHR ''T'' r of None \<Rightarrow> None | Some r1 \<Rightarrow>
        case parse_time r1 of None \<Rightarrow> None | Some (tm, r2) \<Rightarrow>
        case parse_offset r2 of None \<Rightarrow> None | Some off \<Rightarrow>
        Some (MakeDate (MakeDay y (m - 1) d) tm - off))"

text \<open>
  For every other string the result of \<^verbatim>\<open>Date.parse\<close> depends on the host: a date-time
  without an offset is read in the host's time zone, and a string outside the format is
  left to implementation-defined heuristics.  That part is the parameter \<open>host\<close>; it
  returns \<open>None\<close> for NaN.
\<close>

type_synonym host = "string \<Rightarrow> int option"

definition Date_parse :: "host \<Rightarrow> string \<Rightarrow> int option" where
  "Date_parse host s = (case iso_parse s of Some t \<Rightarrow> Some t | None \<Rightarrow> host s)"

definition new_Date :: "host \<Rightarrow> string \<Rightarrow> int option" where
  "new_Date host s = (case Date_parse host s of None \<Rightarrow> None | Some t \<Rightarrow> TimeClip t)"

text \<open>A host that recognises nothing beyond the strings fixed by the standard.\<close>

definition strict_host :: host where
  "strict_host s = None"


section \<open>The todo form modal\<close>

subsection \<open>Data\<close>

text \<open>
  \<^verbatim>\<open>Priority\<close> is the union \<^verbatim>\<open>'low' | 'medium' | 'high'\<close> and \<^verbatim>\<open>Status\<close> the union
  \<^verbatim>\<open>'pending' | 'in-progress' | 'completed'\<close>; at run time both are strings, and the
  component copies and compares them as strings.
\<close>

type_synonym Priority = string
type_synonym Status = string

record Todo =
  id' :: string
  title :: string
  description :: string
  completed :: bool
  dueDate :: string
  priority :: Priority
  status :: Status
  createdAt :: string
  updatedAt :: string

record TodoFormState =
  title :: string
  description :: string
  dueDate :: string
  priority :: Priority
  status :: Status

text \<open>
  The object passed to \<^verbatim>\<open>onSave\<close> has type \<^verbatim>\<open>Partial<Todo>\<close>: any of the properties of a
  \<^verbatim>\<open>Todo\<close> may be absent.  It is the list of its properties, in the order of the object
  literal that builds it.
\<close>

datatype jsval = Str string | Bool bool

type_synonym PartialTodo = "(string \<times> jsval) list"

text \<open>What the component does to its surroundings: calls on the submit event, the
  window, the title input and the two callback props.\<close>

datatype effect =
  PreventDefault
| Alert string
| FocusTitle
| OnSave PartialTodo
| OnClose

text \<open>
  The props \<open>isOpen\<close> and \<open>editingTodo\<close>, the state \<open>formData\<close> of the component, and the
  effects so far, oldest first.
\<close>

record modal =
  isOpen :: bool
  editingTodo :: "Todo option"
  formData :: TodoFormState
  trace :: "effect list"

definition defaultFormState :: TodoFormState where
  "defaultFormState =
     \<lparr>title = [], description = [], dueDate = [], priority = ''medium'',
      status = ''pending''\<rparr>"

text \<open>The component as first rendered, closed: \<^verbatim>\<open>useState(defaultFormState)\<close>.\<close>

definition initial_modal :: modal where
  "initial_modal =
     \<lparr>isOpen = False, editingTodo = None, formData = defaultFormState, trace = []\<rparr>"

definition emit :: "effect \<Rightarrow> modal \<Rightarrow> modal" where
  "emit e w = w\<lparr>trace := trace w @ [e]\<rparr>"

subsection \<open>Seeding the form\<close>

text \<open>
  The value given to the date input:
  \<^verbatim>\<open>editingTodo.dueDate ? new Date(editingTodo.dueDate).toISOString().split('T')[0] : ''\<close>.
  An empty string is falsy.
\<close>

definition dueDate_input :: "host \<Rightarrow> string \<Rightarrow> error + string" where
  "dueDate_input host s =
     (if s \<noteq> [] then
        (case Date_toISOString (new_Date host s) of
           Inl err \<Rightarrow> Inl err
         | Inr str \<Rightarrow> Inr (split_head CHR ''T'' str))
      else Inr [])"

text \<open>
  The body of the effect with dependencies \<^verbatim>\<open>[isOpen, editingTodo]\<close>.  The focus of the
  title input is requested through \<^verbatim>\<open>setTimeout\<close>; an exception leaves the state as it
  was.
\<close>

definition seeding_effect :: "host \<Rightarrow> modal \<Rightarrow> error + modal" where
  "seeding_effect host w =
     (if isOpen w then
        (case editingTodo w of
           Some e \<Rightarrow>
             (case dueDate_input host (Todo.dueDate e) of
                Inl err \<Rightarrow> Inl err
              | Inr d \<Rightarrow>
                  Inr (emit FocusTitle
                    (w\<lparr>formData :=
                        \<lparr>title = Todo.title e, description = Todo.description e, dueDate = d,
                         priority = Todo.priority e, status = Todo.status e\<rparr>\<rparr>)))
         | None \<Rightarrow> Inr (emit FocusTitle (w\<lparr>formData := defaultFormState\<rparr>)))
      else Inr w)"

subsection \<open>Editing\<close>

text \<open>
  \<^verbatim>\<open>handleChange\<close> is the change handler of five controls; \<open>name\<close> is the \<^verbatim>\<open>name\<close>
  attribute of the control that raised the event, and \<open>value\<close> its value.
\<close>

datatype field_name = name_title | name_description | name_dueDate | name_priority | name_status

text \<open>The updater \<^verbatim>\<open>prev => ({ ...prev, [name]: value })\<close>.\<close>

fun set_field :: "field_name \<Rightarrow> string \<Rightarrow> TodoFormState \<Rightarrow> TodoFormState" where
  "set_field name_title v prev = prev\<lparr>title := v\<rparr>"
| "set_field name_description v prev = prev\<lparr>description := v\<rparr>"
| "set_field name_dueDate v prev = prev\<lparr>dueDate := v\<rparr>"
| "set_field name_priority v prev = prev\<lparr>priority := v\<rparr>"
| "set_field name_status v prev = prev\<lparr>status := v\<rparr>"

text \<open>Reading the property \<open>name\<close> of a form state.\<close>

fun get_field :: "field_name \<Rightarrow> TodoFormState \<Rightarrow> string" where
  "get_field name_title s = title s"
| "get_field name_description s = description s"
| "get_field name_dueDate s = dueDate s"
| "get_field name_priority s = priority s"
| "get_field name_status s = status s"

definition handleChange :: "field_name \<Rightarrow> string \<Rightarrow> modal \<Rightarrow> modal" where
  "handleChange name v w = w\<lparr>formData := set_field name v (formData w)\<rparr>"

subsection \<open>Closing and saving\<close>

text \<open>
  Modelled from the spec: the parent component that owns \<open>isOpen\<close> and supplies the
  \<^verbatim>\<open>onClose\<close> prop is not among the sources.  By the spec, \<^verbatim>\<open>onClose\<close> is "used by the
  collaborator only to reset its own is-editor-open flag".  With \<open>isOpen\<close> false the
  seeding effect does nothing, so \<open>formData\<close> stays as it is.
\<close>

definition onClose :: "modal \<Rightarrow> modal" where
  "onClose w = (emit OnClose w)\<lparr>isOpen := False\<rparr>"

definition todoToSave :: "modal \<Rightarrow> PartialTodo" where
  "todoToSave w =
     [(''title'', Str (title (formData w))),
      (''description'', Str (description (formData w))),
      (''dueDate'', Str (dueDate (formData w))),
      (''priority'', Str (priority (formData w))),
      (''status'', Str (status (formData w))),
      (''completed'', Bool (status (formData w) = ''completed''))] @
     (case editingTodo w of None \<Rightarrow> [] | Some e \<Rightarrow> [(''id'', Str (id' e))])"

definition handleSubmit :: "modal \<Rightarrow> modal" where
  "handleSubmit w =
     (let w1 = emit PreventDefault w
      in if trim (title (formData w1)) = []
         then emit FocusTitle (emit (Alert ''Todo title cannot be empty.'') w1)
         else onClose (emit (OnSave (todoToSave w1)) w1))"

subsection \<open>Events\<close>

text \<open>
  The events the rendered modal reacts to: a click on the overlay, a click inside the
  content that hits no button (its handler stops the propagation to the overlay), the
  close and the cancel button, a key pressed anywhere in the document, a change of one
  of the five controls, and the submit event of the form, which calls \<^verbatim>\<open>handleSubmit\<close>.
  A closed modal renders nothing and has removed its key listener, so no event reaches
  it.
\<close>

datatype ui_event =
  ClickOverlay
| ClickContent
| ClickCloseButton
| ClickCancelButton
| KeyDown string
| Change field_name string
| Submit

definition dispatch :: "ui_event \<Rightarrow> modal \<Rightarrow> modal" where
  "dispatch ev w =
     (if \<not> isOpen w then w
      else case ev of
        ClickOverlay \<Rightarrow> onClose w
      | ClickContent \<Rightarrow> w
      | ClickCloseButton \<Rightarrow> onClose w
      | ClickCancelButton \<Rightarrow> onClose w
      | KeyDown k \<Rightarrow> if k = ''Escape'' then onClose w else w
      | Change name v \<Rightarrow> handleChange name v w
      | Submit \<Rightarrow> handleSubmit w)"

text \<open>The four dismissal triggers of the spec.\<close>

fun is_dismissal :: "ui_event \<Rightarrow> bool" where
  "is_dismissal ClickOverlay = True"
| "is_dismissal ClickCloseButton = True"
| "is_dismissal ClickCancelButton = True"
| "is_dismissal (KeyDown k) = (k = ''Escape'')"
| "is_dismissal _ = False"

text \<open>
  Modelled from the spec: the parent's \<^verbatim>\<open>openEditor(entity?)\<close> is not among the sources.
  By the spec it makes the controller open for the entity, if any; the parent renders
  the modal with \<open>isOpen\<close> true and that entity as \<open>editingTodo\<close>.  The seeding effect runs
  after the render when one of its dependencies has changed.
\<close>

definition openEditor :: "host \<Rightarrow> Todo option \<Rightarrow> modal \<Rightarrow> error + modal" where
  "openEditor host e w =
     (if isOpen w \<and> editingTodo w = e then Inr w
      else seeding_effect host (w\<lparr>isOpen := True, editingTodo := e\<rparr>))"

subsection \<open>Notions used to state the properties\<close>

text \<open>A title that \<^verbatim>\<open>trim\<close> empties: it has no character other than white space.\<close>

definition blank :: "string \<Rightarrow> bool" where
  "blank s = list_all is_whitespace s"

text \<open>The calendar date written in a due date: the text before the time designator.\<close>

definition calendar_date :: "string \<Rightarrow> string" where
  "calendar_date s = takeWhile (\<lambda>c. c \<noteq> CHR ''T'') s"

text \<open>
  A due date written as a calendar date \<^verbatim>\<open>YYYY-MM-DD\<close> that exists, alone or followed
  by \<^verbatim>\<open>T\<close>, a time of day and the UTC designator \<^verbatim>\<open>Z\<close>.
\<close>

definition utc_due_date :: "string \<Rightarrow> bool" where
  "utc_due_date s =
     (case parse_date s of None \<Rightarrow> False | Some (ymd, r) \<Rightarrow>
      r = [] \<or>
      (case expect CHR ''T'' r of None \<Rightarrow> False | Some r1 \<Rightarrow>
       case parse_time r1 of None \<Rightarrow> False | Some (tm, r2) \<Rightarrow> r2 = ''Z''))"

subsection \<open>Runs of the controller\<close>

text \<open>
  A run is a sequence of calls of \<open>openEditor\<close> and of events on the modal.  It stops
  with the error when the seeding effect throws.
\<close>

datatype step = Open "Todo option" | Ui ui_event

fun run :: "host \<Rightarrow> step list \<Rightarrow> modal \<Rightarrow> error + modal" where
  "run host [] w = Inr w"
| "run host (Open e # steps) w =
     (case openEditor host e w of Inl err \<Rightarrow> Inl err | Inr w' \<Rightarrow> run host steps w')"
| "run host (Ui ev # steps) w = run host steps (dispatch ev w)"

text \<open>The edit \<open>setField(name, value)\<close> as a step.\<close>

definition setField :: "field_name \<times> string \<Rightarrow> step" where
  "setField nv = Ui (Change (fst nv) (snd nv))"

subsection \<open>Example entities\<close>

text \<open>The entity of the spec's editing scenario.\<close>

definition scenario_todo :: Todo where
  "scenario_todo =
     \<lparr>id' = ''t1'', title = ''X'', description = [], completed = False,
      dueDate = ''2024-03-05T10:00:00Z'', priority = ''high'', status = ''pending'',
      createdAt = ''2024-03-01T08:00:00.000Z'', updatedAt = ''2024-03-01T08:00:00.000Z''\<rparr>"

text \<open>An entity due late in the evening, five hours west of UTC.\<close>

definition evening_todo :: Todo where
  "evening_todo =
     \<lparr>id' = ''t2'', title = ''Call'', description = [], completed = False,
      dueDate = ''2024-03-05T23:30:00-05:00'', priority = ''low'', status = ''pending'',
      createdAt = ''2024-03-01T08:00:00.000Z'', updatedAt = ''2024-03-01T08:00:00.000Z''\<rparr>"

text \<open>A completed entity due on the last evening of a year, eight hours west of UTC.\<close>

definition year_end_todo :: Todo where
  "year_end_todo =
     \<lparr>id' = ''t3'', title = ''Close the books'', description = ''Q4'', completed = True,
      dueDate = ''2024-12-31T20:00:00-08:00'', priority = ''high'', status = ''completed'',
      createdAt = ''2024-12-01T08:00:00.000Z'', updatedAt = ''2024-12-01T08:00:00.000Z''\<rparr>"

text \<open>An entity without a due date.\<close>

definition undated_todo :: Todo where
  "undated_todo =
     \<lparr>id' = ''t4'', title = ''Someday'', description = ''no date'', completed = False,
      dueDate = [], priority = ''medium'', status = ''in-progress'',
      createdAt = ''2024-03-01T08:00:00.000Z'', updatedAt = ''2024-03-01T08:00:00.000Z''\<rparr>"

section \<open>Lemmas\<close>

subsection \<open>Years and days\<close>

lemma div_succ:
  fixes a n :: int
  assumes "1 < n"
  shows "(a + 1) div n = a div n + (if (a + 1) mod n = 0 then 1 else 0)"
proof -
  have e: "(a + 1) div n = a div n + 1 div n + (a mod n + 1 mod n) div n"
    by (rule div_add1_eq)
  have r: "0 \<le> a mod n" "a mod n < n" using assms by simp_all
  have m: "(a + 1) mod n = (a mod n + 1) mod n" by (simp add: mod_add_left_eq)
  show ?thesis
  proof (cases "a mod n = n - 1")
    case True
    then show ?thesis using e m assms by simp
  next
    case False
    then have "a mod n + 1 < n" using r by linarith
    then show ?thesis using e m assms r by (simp add: div_pos_pos_trivial mod_pos_pos_trivial)
  qed
qed

lemma mod_shift: "((y::int) - k * n) mod n = y mod n"
  by (metis mod_mult_self1 diff_conv_add_uminus mult_minus_left mult.commute)

lemma leap_dvd: "(y::int) mod 100 = 0 \<Longrightarrow> y mod 4 = 0" "(y::int) mod 400 = 0 \<Longrightarrow> y mod 100 = 0"
proof -
  have "(4::int) dvd 100" "(100::int) dvd 400" by simp_all
  then show "(y::int) mod 100 = 0 \<Longrightarrow> y mod 4 = 0" "(y::int) mod 400 = 0 \<Longrightarrow> y mod 100 = 0"
    by (auto simp: mod_eq_0_iff_dvd intro: dvd_trans)
qed

lemma DayFromYear_step: "DayFromYear (y + 1) = DayFromYear y + DaysInYear y"
proof -
  have a: "(y + 1 - 1969) div 4 = (y - 1969) div 4 + (if y mod 4 = 0 then 1 else 0)"
    using div_succ [of 4 "y - 1969"] mod_shift [of y 492 4] by (simp add: algebra_simps)
  have b: "(y + 1 - 1901) div 100 = (y - 1901) div 100 + (if y mod 100 = 0 then 1 else 0)"
    using div_succ [of 100 "y - 1901"] mod_shift [of y 19 100] by (simp add: algebra_simps)
  have c: "(y + 1 - 1601) div 400 = (y - 1601) div 400 + (if y mod 400 = 0 then 1 else 0)"
    using div_succ [of 400 "y - 1601"] mod_shift [of y 4 400] by (simp add: algebra_simps)
  show ?thesis
    unfolding DayFromYear_def DaysInYear_def using leap_dvd [of y]
    by (simp only: a b c) (auto simp: algebra_simps)
qed

lemma DaysInYear_bounds: "365 \<le> DaysInYear y" "DaysInYear y \<le> 366"
  by (simp_all add: DaysInYear_def)

lemma DayFromYear_mono: "y \<le> y' \<Longrightarrow> DayFromYear y \<le> DayFromYear y'"
proof (induction y' rule: int_ge_induct)
  case base
  show ?case by simp
next
  case (step i)
  then show ?case using DayFromYear_step [of i] DaysInYear_bounds [of i] by linarith
qed

lemma DayFromYear_1970: "DayFromYear 1970 = 0"
  by (simp add: DayFromYear_def)

lemma DayFromYear_upper: "0 \<le> k \<Longrightarrow> DayFromYear (1970 + k) \<le> 366 * k"
proof (induction k rule: int_ge_induct)
  case base
  show ?case by (simp add: DayFromYear_1970)
next
  case (step i)
  then show ?case
    using DayFromYear_step [of "1970 + i"] DaysInYear_bounds [of "1970 + i"]
    by (simp add: algebra_simps)
qed

lemma DayFromYear_lower: "k \<le> 0 \<Longrightarrow> DayFromYear (1970 + k) \<le> 365 * k"
proof (induction k rule: int_le_induct)
  case base
  show ?case by (simp add: DayFromYear_1970)
next
  case (step i)
  then show ?case
    using DayFromYear_step [of "1970 + i - 1"] DaysInYear_bounds [of "1970 + i - 1"]
    by (simp add: algebra_simps)
qed

lemma year_search_correct:
  "DayFromYear y \<le> d \<Longrightarrow>
   DayFromYear (year_search y d) \<le> d \<and> d < DayFromYear (year_search y d + 1)"
proof (induction y d rule: year_search.induct)
  case (1 y d)
  show ?case
  proof (cases "DayFromYear (y + 1) \<le> d")
    case True
    with "1.IH" show ?thesis by (subst (1 2) year_search.simps) simp
  next
    case False
    with "1.prems" show ?thesis by (subst (1 2) year_search.simps) simp
  qed
qed

lemma year_unique:
  assumes "DayFromYear a \<le> d" "d < DayFromYear (a + 1)"
    and "DayFromYear b \<le> d" "d < DayFromYear (b + 1)"
  shows "a = b"
proof (rule ccontr)
  assume "a \<noteq> b"
  then consider "a + 1 \<le> b" | "b + 1 \<le> a" by linarith
  then show False
  proof cases
    case 1
    from DayFromYear_mono [OF this] assms show False by linarith
  next
    case 2
    from DayFromYear_mono [OF this] assms show False by linarith
  qed
qed

lemma YearFromTime_eq:
  assumes "DayFromYear y \<le> Day t" "Day t < DayFromYear (y + 1)"
  shows "YearFromTime t = y"
proof -
  let ?d = "Day t"
  let ?y0 = "1970 + (if 0 \<le> ?d then ?d div 366 else ?d div 365)"
  have "DayFromYear ?y0 \<le> ?d"
  proof (cases "0 \<le> ?d")
    case True
    then have "0 \<le> ?d div 366" by simp
    from DayFromYear_upper [OF this] True show ?thesis by simp
  next
    case False
    then have "?d div 365 \<le> 0" by simp
    from DayFromYear_lower [OF this] False show ?thesis by simp
  qed
  from year_search_correct [OF this] have
    "DayFromYear (YearFromTime t) \<le> ?d \<and> ?d < DayFromYear (YearFromTime t + 1)"
    by (simp add: YearFromTime_def Let_def)
  with assms show ?thesis using year_unique by blast
qed

subsection \<open>Months and dates\<close>

lemma Day_MakeDate: "0 \<le> tm \<Longrightarrow> tm < msPerDay \<Longrightarrow> Day (MakeDate day tm) = day"
  by (simp add: Day_def MakeDate_def msPerDay_def div_pos_pos_trivial)

lemma DaysInYear_cases: "DaysInYear y = 365 \<or> DaysInYear y = 366"
  by (simp add: DaysInYear_def)

lemma month_cases:
  "1 \<le> m \<Longrightarrow> m \<le> 12 \<Longrightarrow>
   m = 1 \<or> m = 2 \<or> m = 3 \<or> m = 4 \<or> m = 5 \<or> m = 6 \<or> m = 7 \<or> m = 8 \<or> m = 9 \<or> m = 10 \<or>
   m = 11 \<or> m = (12::int)"
  by arith

lemma within_year:
  assumes "1 \<le> m" "m \<le> 12" "1 \<le> d" "d \<le> DaysInMonth y m"
    and "L = (if DaysInYear y = 366 then 1 else 0)"
    and "w = MonthStart (m - 1) L + d - 1"
  shows "0 \<le> w \<and> w < DaysInYear y"
  using month_cases [OF assms(1,2)] DaysInYear_cases [of y] assms(3-)
  by (elim disjE) (simp_all add: MonthStart_def DaysInMonth_def)

lemma month_of_day:
  assumes "1 \<le> m" "m \<le> 12" "1 \<le> d" "d \<le> DaysInMonth y m"
    and "L = (if DaysInYear y = 366 then 1 else 0)"
    and "w = MonthStart (m - 1) L + d - 1"
  shows "(if w < 31 then 0
         else if w < 59 + L then 1
         else if w < 90 + L then 2
         else if w < 120 + L then 3
         else if w < 151 + L then 4
         else if w < 181 + L then 5
         else if w < 212 + L then 6
         else if w < 243 + L then 7
         else if w < 273 + L then 8
         else if w < 304 + L then 9
         else if w < 334 + L then 10
         else 11) = m - 1"
  using month_cases [OF assms(1,2)] DaysInYear_cases [of y] assms(3-)
  by (elim disjE) (simp_all add: MonthStart_def DaysInMonth_def)


lemma date_of_day:
  assumes "1 \<le> m" "m \<le> 12"
    and "w = MonthStart (m - 1) L + d - 1"
  shows "(let mo = m - 1
          in if mo = 0 then w + 1
         else if mo = 1 then w - 30
         else if mo = 2 then w - 58 - L
         else if mo = 3 then w - 89 - L
         else if mo = 4 then w - 119 - L
         else if mo = 5 then w - 150 - L
         else if mo = 6 then w - 180 - L
         else if mo = 7 then w - 211 - L
         else if mo = 8 then w - 242 - L
         else if mo = 9 then w - 272 - L
         else if mo = 10 then w - 303 - L
         else w - 333 - L) = d"
  using month_cases [OF assms(1,2)] assms(3)
  by (elim disjE) (simp_all add: MonthStart_def)

lemma civil_roundtrip:
  assumes m: "1 \<le> m" "m \<le> 12" and d: "1 \<le> d" "d \<le> DaysInMonth y m"
    and tm: "0 \<le> tm" "tm < msPerDay"
    and t: "t = MakeDate (MakeDay y (m - 1) d) tm"
  shows "YearFromTime t = y \<and> MonthFromTime t = m - 1 \<and> DateFromTime t = d"
proof -
  define L :: int where "L = (if DaysInYear y = 366 then 1 else 0)"
  define w where "w = MonthStart (m - 1) L + d - 1"
  have md: "MakeDay y (m - 1) d = DayFromYear y + w"
    using m by (simp add: MakeDay_def Let_def div_pos_pos_trivial mod_pos_pos_trivial L_def w_def)
  have day: "Day t = DayFromYear y + w"
    using tm by (simp add: t Day_MakeDate md)
  have r: "0 \<le> w \<and> w < DaysInYear y"
    using m d L_def w_def by (rule within_year)
  have y: "YearFromTime t = y"
    by (rule YearFromTime_eq) (use day r DayFromYear_step [of y] in linarith)+
  have dwy: "DayWithinYear t = w"
    by (simp add: DayWithinYear_def y day)
  have L: "InLeapYear t = L"
    by (simp add: InLeapYear_def y L_def)
  have mo: "MonthFromTime t = m - 1"
    unfolding MonthFromTime_def dwy L Let_def
    using m d L_def w_def by (rule month_of_day)
  have "DateFromTime t = d"
    using date_of_day [OF m w_def]
    unfolding DateFromTime_def dwy L mo Let_def .
  with y mo show ?thesis by simp
qed

subsection \<open>Digits\<close>

lemma digit_char_digit_val: "is_digit c \<Longrightarrow> digit_char (digit_val c) = c"
  by (simp add: digit_char_def digit_val_def)

lemma digit_val_range: "is_digit c \<Longrightarrow> 0 \<le> digit_val c \<and> digit_val c \<le> 9"
proof -
  assume "is_digit c"
  then have "48 \<le> (of_char c :: nat)" "(of_char c :: nat) \<le> 57"
    by (simp_all add: is_digit_def)
  then have "48 \<le> int (of_char c)" "int (of_char c) \<le> 57" by linarith+
  then show ?thesis by (simp add: digit_val_def of_nat_of_char)
qed

lemma digits_val_snoc: "digits_val (xs @ [c]) = 10 * digits_val xs + digit_val c"
  by (simp add: digits_val_def)

lemma digits_val_range:
  "list_all is_digit xs \<Longrightarrow> 0 \<le> digits_val xs \<and> digits_val xs < 10 ^ length xs"
proof (induction xs rule: rev_induct)
  case Nil
  show ?case by (simp add: digits_val_def)
next
  case (snoc c xs)
  then have "0 \<le> digits_val xs" "digits_val xs + 1 \<le> 10 ^ length xs" by simp_all
  moreover from snoc.prems have "0 \<le> digit_val c \<and> digit_val c \<le> 9"
    by (simp add: digit_val_range)
  ultimately show ?case by (simp add: digits_val_snoc)
qed

lemma pad_digits_val: "list_all is_digit xs \<Longrightarrow> pad (length xs) (digits_val xs) = xs"
proof (induction xs rule: rev_induct)
  case Nil
  show ?case by simp
next
  case (snoc c xs)
  from snoc.prems have r: "0 \<le> digit_val c" "digit_val c < 10"
    using digit_val_range [of c] by simp_all
  then have "(10 * digits_val xs + digit_val c) div 10 = digits_val xs"
    and "(10 * digits_val xs + digit_val c) mod 10 = digit_val c"
    by simp_all
  with snoc show ?case
    by (simp add: digits_val_snoc digit_char_digit_val)
qed

lemma digitsD:
  assumes "digits k s = Some (v, r)"
  shows "s = pad k v @ r \<and> 0 \<le> v \<and> v < 10 ^ k"
proof -
  from assms have k: "k \<le> length s" and dg: "list_all is_digit (take k s)"
    and v: "v = digits_val (take k s)" and r: "r = drop k s"
    by (auto simp: digits_def split: if_splits)
  from k have len: "length (take k s) = k" by simp
  from pad_digits_val [OF dg] have "pad k v = take k s" unfolding len v .
  moreover from digits_val_range [OF dg] have "0 \<le> v \<and> v < 10 ^ k" unfolding len v .
  ultimately show ?thesis by (simp add: r)
qed

lemma expectD: "expect c s = Some r \<Longrightarrow> s = c # r"
  by (auto simp: expect_def split: list.splits if_splits)

lemma parse_dateD:
  assumes "parse_date s = Some ((y, m, d), r)"
  shows "s = pad 4 y @ ''-'' @ pad 2 m @ ''-'' @ pad 2 d @ r"
    and "0 \<le> y" "y \<le> 9999" "1 \<le> m" "m \<le> 12" "1 \<le> d" "d \<le> DaysInMonth y m"
proof -
  from assms obtain s1 s2 s3 s4 where
    a: "digits 4 s = Some (y, s1)" "expect CHR ''-'' s1 = Some s2" "digits 2 s2 = Some (m, s3)"
       "expect CHR ''-'' s3 = Some s4" "digits 2 s4 = Some (d, r)"
    and b: "1 \<le> m \<and> m \<le> 12 \<and> 1 \<le> d \<and> d \<le> DaysInMonth y m"
    by (auto simp: parse_date_def split: option.splits if_splits)
  from a show "s = pad 4 y @ ''-'' @ pad 2 m @ ''-'' @ pad 2 d @ r"
    by (auto dest!: digitsD expectD)
  from a(1) show "0 \<le> y" "y \<le> 9999" by (auto dest!: digitsD)
  from b show "1 \<le> m" "m \<le> 12" "1 \<le> d" "d \<le> DaysInMonth y m" by simp_all
qed

lemma pad_not_T: "c \<in> set (pad k n) \<Longrightarrow> c \<noteq> CHR ''T''"
proof (induction k arbitrary: n)
  case 0
  then show ?case by simp
next
  case (Suc k)
  have "0 \<le> n mod 10" "n mod 10 < 10" by simp_all
  then have ne: "(48 + n mod 10) mod 256 \<noteq> 84"
    by (simp add: mod_pos_pos_trivial)
  have "digit_char (n mod 10) \<noteq> CHR ''T''"
  proof
    assume "digit_char (n mod 10) = CHR ''T''"
    then have "(of_char (digit_char (n mod 10)) :: int) = of_char CHR ''T''" by simp
    then have "(48 + n mod 10) mod 256 = 84" by (simp add: digit_char_def)
    with ne show False by simp
  qed
  with Suc show ?case by auto
qed

subsection \<open>The value of the date input\<close>

lemma takeWhile_date_part:
  "takeWhile (\<lambda>c. c \<noteq> CHR ''T'') (pad a y @ ''-'' @ pad b m @ ''-'' @ pad c d @ r) =
   pad a y @ ''-'' @ pad b m @ ''-'' @ pad c d @ takeWhile (\<lambda>c. c \<noteq> CHR ''T'') r"
  by (simp add: takeWhile_append2 pad_not_T)

lemma split_head_toISOString:
  assumes "0 \<le> YearFromTime t" "YearFromTime t \<le> 9999"
  shows "split_head CHR ''T'' (toISOString t) =
    pad 4 (YearFromTime t) @ ''-'' @ pad 2 (MonthFromTime t + 1) @ ''-'' @ pad 2 (DateFromTime t)"
proof -
  have "toISOString t =
    pad 4 (YearFromTime t) @ ''-'' @ pad 2 (MonthFromTime t + 1) @ ''-'' @
    pad 2 (DateFromTime t) @ (CHR ''T'' # (pad 2 (HourFromTime t) @ '':'' @
     pad 2 (MinFromTime t) @ '':'' @ pad 2 (SecFromTime t) @ ''.'' @
     pad 3 (msFromTime t) @ ''Z''))"
    using assms by (simp add: toISOString_def year_string_def)
  then show ?thesis
    unfolding split_head_def by (simp only: takeWhile_date_part) simp
qed

lemma MakeDay_bounds:
  assumes y: "0 \<le> y" "y \<le> 9999" and m: "1 \<le> m" "m \<le> 12"
    and d: "1 \<le> d" "d \<le> DaysInMonth y m"
  shows "- 719528 \<le> MakeDay y (m - 1) d \<and> MakeDay y (m - 1) d < 2932897"
proof -
  define L :: int where "L = (if DaysInYear y = 366 then 1 else 0)"
  define w where "w = MonthStart (m - 1) L + d - 1"
  have md: "MakeDay y (m - 1) d = DayFromYear y + w"
    using m by (simp add: MakeDay_def Let_def div_pos_pos_trivial mod_pos_pos_trivial L_def w_def)
  have r: "0 \<le> w \<and> w < DaysInYear y"
    using m d L_def w_def by (rule within_year)
  have "DayFromYear 0 \<le> DayFromYear y" using y(1) by (rule DayFromYear_mono)
  moreover have "DayFromYear (y + 1) \<le> DayFromYear 10000"
    using y(2) by (intro DayFromYear_mono) simp
  moreover have "DayFromYear 0 = - 719528" "DayFromYear 10000 = 2932897"
    by (simp_all add: DayFromYear_def)
  ultimately show ?thesis
    using r DayFromYear_step [of y] unfolding md by linarith
qed

lemma parse_timeD:
  assumes "parse_time s = Some (tm, r)"
  shows "0 \<le> tm \<and> tm < msPerDay"
  using assms unfolding parse_time_def
  by (auto split: option.splits if_splits dest!: digitsD simp: MakeTime_def msPerDay_def)

lemma new_Date_utc:
  assumes p: "parse_date s = Some ((y, m, d), r)"
    and t: "iso_parse s = Some (MakeDate (MakeDay y (m - 1) d) tm)"
    and tm: "0 \<le> tm" "tm < msPerDay"
    and r: "r = [] \<or> (\<exists>r1. r = CHR ''T'' # r1)"
  shows "dueDate_input host s = Inr (calendar_date s)"
proof -
  note pd = parse_dateD [OF p]
  let ?t = "MakeDate (MakeDay y (m - 1) d) tm"
  have civ: "YearFromTime ?t = y \<and> MonthFromTime ?t = m - 1 \<and> DateFromTime ?t = d"
    using pd(4-7) tm by (rule civil_roundtrip) simp
  have "\<bar>?t\<bar> \<le> 8640000000000000"
    using MakeDay_bounds [OF pd(2-7)] tm unfolding MakeDate_def msPerDay_def by linarith
  then have nd: "new_Date host s = Some ?t"
    by (simp add: new_Date_def Date_parse_def t TimeClip_def)
  have "split_head CHR ''T'' (toISOString ?t) = pad 4 y @ ''-'' @ pad 2 m @ ''-'' @ pad 2 d"
    using split_head_toISOString [of ?t] civ pd(2,3) by simp
  moreover have "calendar_date s = pad 4 y @ ''-'' @ pad 2 m @ ''-'' @ pad 2 d"
    unfolding calendar_date_def pd(1) using r
    by (simp only: takeWhile_date_part) auto
  moreover have "s \<noteq> []"
    unfolding pd(1) by (simp add: eval_nat_numeral)
  ultimately show ?thesis
    by (simp add: dueDate_input_def nd Date_toISOString_def)
qed

lemma dueDate_input_utc: 
  assumes "utc_due_date s"
  shows "dueDate_input host s = Inr (calendar_date s)"
proof -
  from assms obtain y m d r where p: "parse_date s = Some ((y, m, d), r)"
    and r: "r = [] \<or> (\<exists>r1 tm. expect CHR ''T'' r = Some r1 \<and> parse_time r1 = Some (tm, ''Z''))"
    by (auto simp: utc_due_date_def split: option.splits)
  from r show ?thesis
  proof
    assume e: "r = []"
    have "iso_parse s = Some (MakeDate (MakeDay y (m - 1) d) 0)"
      by (simp add: iso_parse_def p e)
    with p show ?thesis
      by (rule new_Date_utc) (simp_all add: msPerDay_def e)
  next
    assume "\<exists>r1 tm. expect CHR ''T'' r = Some r1 \<and> parse_time r1 = Some (tm, ''Z'')"
    then obtain r1 tm where e: "expect CHR ''T'' r = Some r1" and pt: "parse_time r1 = Some (tm, ''Z'')"
      by blast
    from e have r': "r = CHR ''T'' # r1" by (rule expectD)
    have "iso_parse s = Some (MakeDate (MakeDay y (m - 1) d) tm)"
      by (simp add: iso_parse_def p r' expect_def pt parse_offset_def)
    with p show ?thesis
      by (rule new_Date_utc) (use parse_timeD [OF pt] r' in simp_all)
  qed
qed

lemma dueDate_input_empty: "dueDate_input host [] = Inr []"
  by (simp add: dueDate_input_def)

subsection \<open>Submitting, opening, closing\<close>

lemma trim_empty_iff: "trim s = [] \<longleftrightarrow> blank s"
proof
  assume "trim s = []"
  then have a: "\<forall>x\<in>set (dropWhile is_whitespace s). is_whitespace x"
    by (simp add: trim_def dropWhile_eq_Nil_conv)
  have "dropWhile is_whitespace s = []"
  proof (rule ccontr)
    assume n: "dropWhile is_whitespace s \<noteq> []"
    then have "\<not> is_whitespace (hd (dropWhile is_whitespace s))" by (rule hd_dropWhile)
    moreover from n have "hd (dropWhile is_whitespace s) \<in> set (dropWhile is_whitespace s)"
      by (rule hd_in_set)
    ultimately show False using a by blast
  qed
  then show "blank s"
    by (simp add: blank_def dropWhile_eq_Nil_conv list_all_iff)
next
  assume "blank s"
  then have "dropWhile is_whitespace s = []"
    by (simp add: blank_def list_all_iff)
  then show "trim s = []" unfolding trim_def by (simp only: rev.simps dropWhile.simps)
qed

lemma submit_blank:
  assumes "isOpen w" "blank (title (formData w))"
  shows "dispatch Submit w =
    w\<lparr>trace := trace w @ [PreventDefault, Alert ''Todo title cannot be empty.'', FocusTitle]\<rparr>"
  using assms by (simp add: dispatch_def handleSubmit_def Let_def emit_def trim_empty_iff)

lemma submit_ok:
  assumes "isOpen w" "\<not> blank (title (formData w))"
  shows "dispatch Submit w =
    w\<lparr>isOpen := False, trace := trace w @ [PreventDefault, OnSave (todoToSave w), OnClose]\<rparr>"
  using assms
  by (simp add: dispatch_def handleSubmit_def Let_def emit_def trim_empty_iff onClose_def
      todoToSave_def)

lemma open_entity:
  assumes "\<not> isOpen w" "dueDate_input host (Todo.dueDate E) = Inr d"
  shows "openEditor host (Some E) w =
    Inr \<lparr>isOpen = True, editingTodo = Some E,
         formData = \<lparr>title = Todo.title E, description = Todo.description E, dueDate = d,
                     priority = Todo.priority E, status = Todo.status E\<rparr>,
         trace = trace w @ [FocusTitle]\<rparr>"
  using assms by (simp add: openEditor_def seeding_effect_def emit_def)

lemma open_entity_error:
  assumes "\<not> isOpen w" "dueDate_input host (Todo.dueDate E) = Inl err"
  shows "openEditor host (Some E) w = Inl err"
  using assms by (simp add: openEditor_def seeding_effect_def)

lemma open_create:
  assumes "\<not> isOpen w"
  shows "openEditor host None w =
    Inr \<lparr>isOpen = True, editingTodo = None, formData = defaultFormState,
         trace = trace w @ [FocusTitle]\<rparr>"
  using assms by (simp add: openEditor_def seeding_effect_def emit_def)

lemma dismiss_open:
  "is_dismissal ev \<Longrightarrow> isOpen w \<Longrightarrow>
   dispatch ev w = w\<lparr>isOpen := False, trace := trace w @ [OnClose]\<rparr>"
  by (cases ev) (simp_all add: dispatch_def onClose_def emit_def)

lemma dispatch_closed: "\<not> isOpen w \<Longrightarrow> dispatch ev w = w"
  by (simp add: dispatch_def)

lemma run_append:
  "run host (xs @ ys) w = (case run host xs w of Inl err \<Rightarrow> Inl err | Inr w' \<Rightarrow> run host ys w')"
  by (induction host xs w rule: run.induct) (simp_all split: sum.splits)

lemma run_setField:
  "run host (setField e # steps) w = run host steps (dispatch (Change (fst e) (snd e)) w)"
  by (simp add: setField_def)

lemma run_edits:
  "isOpen w \<Longrightarrow>
   \<exists>fd. run host (map setField edits) w = Inr (w\<lparr>formData := fd\<rparr>)"
proof (induction edits arbitrary: w)
  case Nil
  have "w = w\<lparr>formData := formData w\<rparr>" by simp
  then show ?case by (metis list.simps(8) run.simps(1))
next
  case (Cons e edits)
  let ?w = "w\<lparr>formData := set_field (fst e) (snd e) (formData w)\<rparr>"
  have "isOpen ?w" using Cons.prems by simp
  from Cons.IH [OF this] obtain fd where
    "run host (map setField edits) ?w = Inr (?w\<lparr>formData := fd\<rparr>)"
    by blast
  moreover have "dispatch (Change (fst e) (snd e)) w = ?w"
    using Cons.prems by (simp add: dispatch_def handleChange_def)
  ultimately have "run host (map setField (e # edits)) w = Inr (w\<lparr>formData := fd\<rparr>)"
    by (simp add: run_setField)
  then show ?case by blast
qed

section \<open>Properties\<close>

text \<open>
  C1, as the code has it.  For every entity whose title has a character other than white
  space and whose due date is empty or a calendar date that exists, alone or followed by
  a UTC time, opening the closed editor on the entity and submitting at once calls
  \<^verbatim>\<open>onSave\<close> once, with a record whose title, description, priority and status are the
  entity's, whose due date is the entity's calendar date, whose \<open>completed\<close> says whether
  the entity's status is \<^verbatim>\<open>'completed'\<close>, and whose \<open>id\<close> is the entity's; then it closes.
\<close>

theorem open_submit_returns_entity:
  assumes "\<not> isOpen w"
    and "\<not> blank (Todo.title E)"
    and "Todo.dueDate E = [] \<or> utc_due_date (Todo.dueDate E)"
  shows "run host [Open (Some E), Ui Submit] w =
    Inr \<lparr>isOpen = False, editingTodo = Some E,
         formData =
           \<lparr>title = Todo.title E, description = Todo.description E,
            dueDate = calendar_date (Todo.dueDate E), priority = Todo.priority E,
            status = Todo.status E\<rparr>,
         trace = trace w @
           [FocusTitle, PreventDefault,
            OnSave
              [(''title'', Str (Todo.title E)),
               (''description'', Str (Todo.description E)),
               (''dueDate'', Str (calendar_date (Todo.dueDate E))),
               (''priority'', Str (Todo.priority E)),
               (''status'', Str (Todo.status E)),
               (''completed'', Bool (Todo.status E = ''completed'')),
               (''id'', Str (id' E))],
            OnClose]\<rparr>"
proof -
  have "dueDate_input host (Todo.dueDate E) = Inr (calendar_date (Todo.dueDate E))"
    using assms(3) by (auto simp: dueDate_input_utc) (simp add: dueDate_input_def calendar_date_def)
  from open_entity [OF assms(1) this] show ?thesis
    using assms(2) by (simp add: submit_ok todoToSave_def)
qed

text \<open>The entity of the editing scenario, opened and submitted.\<close>

theorem open_submit_returns_entity_witness:
  "\<not> isOpen initial_modal \<and> \<not> blank (Todo.title scenario_todo) \<and>
   (Todo.dueDate scenario_todo = [] \<or> utc_due_date (Todo.dueDate scenario_todo)) \<and>
   run strict_host [Open (Some scenario_todo), Ui Submit] initial_modal =
    Inr \<lparr>isOpen = False, editingTodo = Some scenario_todo,
         formData =
           \<lparr>title = ''X'', description = [], dueDate = ''2024-03-05'', priority = ''high'',
            status = ''pending''\<rparr>,
         trace =
           [FocusTitle, PreventDefault,
            OnSave
              [(''title'', Str ''X''), (''description'', Str []),
               (''dueDate'', Str ''2024-03-05''), (''priority'', Str ''high''),
               (''status'', Str ''pending''), (''completed'', Bool False),
               (''id'', Str ''t1'')],
            OnClose]\<rparr>"
proof -
  have a: "\<not> isOpen initial_modal" by (simp add: initial_modal_def)
  have b: "\<not> blank (Todo.title scenario_todo)"
    by (simp add: scenario_todo_def blank_def is_whitespace_def)
  have "utc_due_date (Todo.dueDate scenario_todo)" by code_simp
  then have c: "Todo.dueDate scenario_todo = [] \<or> utc_due_date (Todo.dueDate scenario_todo)" ..
  have d: "calendar_date (Todo.dueDate scenario_todo) = ''2024-03-05''"
    by (simp add: scenario_todo_def calendar_date_def)
  show ?thesis
    using a b c open_submit_returns_entity [OF a b c, of strict_host]
    by (simp add: d) (simp add: scenario_todo_def initial_modal_def)
qed

text \<open>
  C1 as stated fails for a due date with an offset from UTC: the record carries the UTC
  calendar date of that instant, here the first day of the next year.
\<close>

theorem open_submit_shifts_date_counterexample:
  "run strict_host [Open (Some year_end_todo), Ui Submit] initial_modal =
    Inr \<lparr>isOpen = False, editingTodo = Some year_end_todo,
         formData =
           \<lparr>title = ''Close the books'', description = ''Q4'', dueDate = ''2025-01-01'',
            priority = ''high'', status = ''completed''\<rparr>,
         trace =
           [FocusTitle, PreventDefault,
            OnSave
              [(''title'', Str ''Close the books''), (''description'', Str ''Q4''),
               (''dueDate'', Str ''2025-01-01''), (''priority'', Str ''high''),
               (''status'', Str ''completed''), (''completed'', Bool True),
               (''id'', Str ''t3'')],
            OnClose]\<rparr> \<and>
   calendar_date (Todo.dueDate year_end_todo) = ''2024-12-31''"
  by code_simp

text \<open>
  C2.  When the title of an open form has no character other than white space, the
  submission is refused on the spot: neither \<^verbatim>\<open>onSave\<close> nor \<^verbatim>\<open>onClose\<close> is called, the
  modal stays open, the form state is unchanged, and the only effects are the alert and
  the focus of the title input.
\<close>

theorem submit_blank_title_refused:
  assumes "isOpen w" and "blank (title (formData w))"
  shows "formData (dispatch Submit w) = formData w \<and>
         isOpen (dispatch Submit w) \<and>
         editingTodo (dispatch Submit w) = editingTodo w \<and>
         trace (dispatch Submit w) =
           trace w @ [PreventDefault, Alert ''Todo title cannot be empty.'', FocusTitle]"
  using assms by (simp add: submit_blank)

text \<open>A form whose title is three spaces.\<close>

theorem submit_blank_title_refused_witness:
  "isOpen \<lparr>isOpen = True, editingTodo = None,
           formData = defaultFormState\<lparr>title := ''   ''\<rparr>, trace = [FocusTitle]\<rparr> \<and>
   blank (title (formData \<lparr>isOpen = True, editingTodo = None,
           formData = defaultFormState\<lparr>title := ''   ''\<rparr>, trace = [FocusTitle]\<rparr>)) \<and>
   trace (dispatch Submit \<lparr>isOpen = True, editingTodo = None,
           formData = defaultFormState\<lparr>title := ''   ''\<rparr>, trace = [FocusTitle]\<rparr>) =
     [FocusTitle, PreventDefault, Alert ''Todo title cannot be empty.'', FocusTitle]"
proof -
  let ?w = "\<lparr>isOpen = True, editingTodo = None,
           formData = defaultFormState\<lparr>title := ''   ''\<rparr>, trace = [FocusTitle]\<rparr>"
  have a: "isOpen ?w" by simp
  have b: "blank (title (formData ?w))" by (simp add: blank_def is_whitespace_def)
  from submit_blank_title_refused [OF a b] a b show ?thesis by simp
qed

text \<open>
  C3.  A submission that passes the validation calls \<^verbatim>\<open>onSave\<close> with a record whose
  properties are the five form fields and \<open>completed\<close>, followed by \<open>id\<close> exactly when
  the modal was opened with an entity, in which case it is that entity's \<open>id\<close>; the
  record has no \<open>createdAt\<close> and no \<open>updatedAt\<close>.
\<close>

theorem saved_record_has_id_iff_editing:
  assumes "isOpen w" and "\<not> blank (title (formData w))"
  shows "trace (dispatch Submit w) =
           trace w @ [PreventDefault, OnSave (todoToSave w), OnClose] \<and>
         map fst (todoToSave w) =
           [''title'', ''description'', ''dueDate'', ''priority'', ''status'', ''completed''] @
           (case editingTodo w of None \<Rightarrow> [] | Some e \<Rightarrow> [''id'']) \<and>
         map_of (todoToSave w) ''id'' =
           (case editingTodo w of None \<Rightarrow> None | Some e \<Rightarrow> Some (Str (id' e))) \<and>
         map_of (todoToSave w) ''createdAt'' = None \<and>
         map_of (todoToSave w) ''updatedAt'' = None"
  using assms by (simp add: submit_ok) (simp add: todoToSave_def split: option.split)

text \<open>The editing scenario after the form is seeded.\<close>

theorem saved_record_has_id_iff_editing_witness:
  "isOpen \<lparr>isOpen = True, editingTodo = Some scenario_todo,
           formData = defaultFormState\<lparr>title := ''X''\<rparr>, trace = []\<rparr> \<and>
   \<not> blank (title (formData \<lparr>isOpen = True, editingTodo = Some scenario_todo,
           formData = defaultFormState\<lparr>title := ''X''\<rparr>, trace = []\<rparr>)) \<and>
   map_of (todoToSave \<lparr>isOpen = True, editingTodo = Some scenario_todo,
           formData = defaultFormState\<lparr>title := ''X''\<rparr>, trace = []\<rparr>) ''id'' =
     Some (Str ''t1'')"
proof -
  let ?w = "\<lparr>isOpen = True, editingTodo = Some scenario_todo,
           formData = defaultFormState\<lparr>title := ''X''\<rparr>, trace = []\<rparr>"
  have a: "isOpen ?w" by simp
  have b: "\<not> blank (title (formData ?w))" by (simp add: blank_def is_whitespace_def)
  from saved_record_has_id_iff_editing [OF a b] a b show ?thesis
    by (simp add: scenario_todo_def)
qed

text \<open>
  C4.  Opening the closed editor without an entity seeds the defaults: empty title,
  description and due date, priority medium, status pending.  Setting the title to
  \<^verbatim>\<open>Buy milk\<close> and the status to \<^verbatim>\<open>completed\<close> and submitting then calls \<^verbatim>\<open>onSave\<close> once,
  with exactly the record of the scenario, which has no \<open>id\<close>, and closes the modal.
\<close>

theorem create_scenario:
  assumes "\<not> isOpen w"
  shows "run host [Open None] w =
           Inr \<lparr>isOpen = True, editingTodo = None,
                formData =
                  \<lparr>title = [], description = [], dueDate = [], priority = ''medium'',
                   status = ''pending''\<rparr>,
                trace = trace w @ [FocusTitle]\<rparr> \<and>
         run host
           [Open None, setField (name_title, ''Buy milk''),
            setField (name_status, ''completed''), Ui Submit] w =
           Inr \<lparr>isOpen = False, editingTodo = None,
                formData =
                  \<lparr>title = ''Buy milk'', description = [], dueDate = [],
                   priority = ''medium'', status = ''completed''\<rparr>,
                trace = trace w @
                  [FocusTitle, PreventDefault,
                   OnSave
                     [(''title'', Str ''Buy milk''), (''description'', Str []),
                      (''dueDate'', Str []), (''priority'', Str ''medium''),
                      (''status'', Str ''completed''), (''completed'', Bool True)],
                   OnClose]\<rparr>"
proof -
  let ?w1 = "\<lparr>isOpen = True, editingTodo = None, formData = defaultFormState,
              trace = trace w @ [FocusTitle]\<rparr>"
  let ?w3 = "\<lparr>isOpen = True, editingTodo = None,
              formData = \<lparr>title = ''Buy milk'', description = [], dueDate = [],
                   priority = ''medium'', status = ''completed''\<rparr>,
              trace = trace w @ [FocusTitle]\<rparr>"
  have o: "openEditor host None w = Inr ?w1" using assms by (rule open_create)
  have e: "dispatch (Change name_status ''completed'')
             (dispatch (Change name_title ''Buy milk'') ?w1) = ?w3"
    by (simp add: dispatch_def handleChange_def defaultFormState_def)
  have "\<not> blank (title (formData ?w3))" by (simp add: blank_def is_whitespace_def)
  then have s: "dispatch Submit ?w3 =
      ?w3\<lparr>isOpen := False,
           trace := trace ?w3 @ [PreventDefault, OnSave (todoToSave ?w3), OnClose]\<rparr>"
    by (intro submit_ok) simp_all
  show ?thesis
    by (simp add: o setField_def e s) (simp add: todoToSave_def defaultFormState_def)
qed

text \<open>The scenario on the component as first rendered.\<close>

theorem create_scenario_witness:
  "\<not> isOpen initial_modal \<and>
   run strict_host
     [Open None, setField (name_title, ''Buy milk''),
      setField (name_status, ''completed''), Ui Submit] initial_modal =
     Inr \<lparr>isOpen = False, editingTodo = None,
          formData =
            \<lparr>title = ''Buy milk'', description = [], dueDate = [],
             priority = ''medium'', status = ''completed''\<rparr>,
          trace =
            [FocusTitle, PreventDefault,
             OnSave
               [(''title'', Str ''Buy milk''), (''description'', Str []),
                (''dueDate'', Str []), (''priority'', Str ''medium''),
                (''status'', Str ''completed''), (''completed'', Bool True)],
             OnClose]\<rparr>"
proof -
  have a: "\<not> isOpen initial_modal" by (simp add: initial_modal_def)
  have t: "trace initial_modal = []" by (simp add: initial_modal_def)
  from create_scenario [OF a, of strict_host] a show ?thesis by (simp add: t)
qed

text \<open>
  C5, as the code has it.  When the due date of the entity is a calendar date that
  exists, alone or followed by a UTC time, opening the closed editor on the entity
  seeds the due date of the form with that calendar date, the time and the \<^verbatim>\<open>Z\<close>
  dropped; title, description, priority and status are copied as they are.
\<close>

theorem open_seeds_calendar_date:
  assumes "\<not> isOpen w" and "utc_due_date (Todo.dueDate E)"
  shows "openEditor host (Some E) w =
    Inr \<lparr>isOpen = True, editingTodo = Some E,
         formData =
           \<lparr>title = Todo.title E, description = Todo.description E,
            dueDate = calendar_date (Todo.dueDate E), priority = Todo.priority E,
            status = Todo.status E\<rparr>,
         trace = trace w @ [FocusTitle]\<rparr>"
  using assms(1) dueDate_input_utc [OF assms(2)] by (rule open_entity)

text \<open>The editing scenario: \<^verbatim>\<open>2024-03-05T10:00:00Z\<close> is seeded as \<^verbatim>\<open>2024-03-05\<close>.\<close>

theorem open_seeds_calendar_date_witness:
  "\<not> isOpen initial_modal \<and> utc_due_date (Todo.dueDate scenario_todo) \<and>
   openEditor strict_host (Some scenario_todo) initial_modal =
    Inr \<lparr>isOpen = True, editingTodo = Some scenario_todo,
         formData =
           \<lparr>title = ''X'', description = [], dueDate = ''2024-03-05'', priority = ''high'',
            status = ''pending''\<rparr>,
         trace = [FocusTitle]\<rparr>"
proof -
  have a: "\<not> isOpen initial_modal" by (simp add: initial_modal_def)
  have b: "utc_due_date (Todo.dueDate scenario_todo)" by code_simp
  have d: "calendar_date (Todo.dueDate scenario_todo) = ''2024-03-05''"
    by (simp add: scenario_todo_def calendar_date_def)
  from open_seeds_calendar_date [OF a b, of strict_host] a b show ?thesis
    by (simp add: d) (simp add: scenario_todo_def initial_modal_def)
qed

text \<open>
  C5 as stated fails for a due date with an offset from UTC: half past eleven in the
  evening of 5 March, five hours west of UTC, is seeded as 6 March.
\<close>

theorem open_shifts_date_counterexample:
  "openEditor strict_host (Some evening_todo) initial_modal =
    Inr \<lparr>isOpen = True, editingTodo = Some evening_todo,
         formData =
           \<lparr>title = ''Call'', description = [], dueDate = ''2024-03-06'', priority = ''low'',
            status = ''pending''\<rparr>,
         trace = [FocusTitle]\<rparr> \<and>
   calendar_date (Todo.dueDate evening_todo) = ''2024-03-05''"
  by code_simp

text \<open>
  C6.  \<open>handleChange\<close> gives the named field the new value and leaves the other four
  fields, the props and the effects as they were; in particular nothing is saved.
\<close>

theorem handleChange_replaces_one_field:
  "get_field name (formData (handleChange name v w)) = v \<and>
   (\<forall>other. other \<noteq> name \<longrightarrow>
      get_field other (formData (handleChange name v w)) = get_field other (formData w)) \<and>
   isOpen (handleChange name v w) = isOpen w \<and>
   editingTodo (handleChange name v w) = editingTodo w \<and>
   trace (handleChange name v w) = trace w"
proof -
  have "get_field name (set_field name v s) = v" for s
    by (cases name) simp_all
  moreover have "other \<noteq> name \<Longrightarrow> get_field other (set_field name v s) = get_field other s"
    for other s
    by (cases name; cases other) simp_all
  ultimately show ?thesis by (simp add: handleChange_def)
qed

text \<open>Setting the title of the default form leaves its status pending.\<close>

theorem handleChange_replaces_one_field_witness:
  "name_status \<noteq> name_title \<and>
   get_field name_title (formData (handleChange name_title ''Buy milk'' initial_modal)) =
     ''Buy milk'' \<and>
   get_field name_status (formData (handleChange name_title ''Buy milk'' initial_modal)) =
     ''pending''"
proof -
  note t = handleChange_replaces_one_field [of name_title "''Buy milk''" initial_modal]
  have ne: "name_status \<noteq> name_title" by simp
  from t have "get_field name_title (formData (handleChange name_title ''Buy milk'' initial_modal)) =
     ''Buy milk''" by blast
  moreover from t ne have
    "get_field name_status (formData (handleChange name_title ''Buy milk'' initial_modal)) =
     get_field name_status (formData initial_modal)" by blast
  moreover have "get_field name_status (formData initial_modal) = ''pending''"
    by (simp add: initial_modal_def defaultFormState_def)
  ultimately show ?thesis using ne by (simp only:) simp
qed

text \<open>
  C7.  From the closed state, opening the editor on an entity, editing any fields,
  dismissing and opening the editor on the entity again gives the form state that the
  first opening gave (or the same error, when seeding throws): the edits leave no trace
  in it.
\<close>

theorem reopen_seeds_again:
  assumes "\<not> isOpen w" and "is_dismissal ev"
  shows "map_sum id formData
           (run host (Open (Some E) # map setField edits @ [Ui ev, Open (Some E)]) w) =
         map_sum id formData (run host [Open (Some E)] w)"
proof (cases "dueDate_input host (Todo.dueDate E)")
  case (Inl err)
  with assms(1) have "openEditor host (Some E) w = Inl err" by (rule open_entity_error)
  then show ?thesis by simp
next
  case (Inr d)
  let ?fd = "\<lparr>title = Todo.title E, description = Todo.description E, dueDate = d,
              priority = Todo.priority E, status = Todo.status E\<rparr>"
  let ?w1 = "\<lparr>isOpen = True, editingTodo = Some E, formData = ?fd,
              trace = trace w @ [FocusTitle]\<rparr>"
  have o1: "openEditor host (Some E) w = Inr ?w1" using assms(1) Inr by (rule open_entity)
  obtain fd where ed: "run host (map setField edits) ?w1 = Inr (?w1\<lparr>formData := fd\<rparr>)"
    using run_edits [of ?w1 host edits] by auto
  let ?w2 = "?w1\<lparr>formData := fd\<rparr>"
  let ?w3 = "?w2\<lparr>isOpen := False, trace := trace ?w2 @ [OnClose]\<rparr>"
  have cl: "dispatch ev ?w2 = ?w3"
    using assms(2) by (rule dismiss_open) simp
  have "\<not> isOpen ?w3" by simp
  from open_entity [OF this Inr] have "\<exists>w4. openEditor host (Some E) ?w3 = Inr w4 \<and> formData w4 = ?fd"
    by simp
  then have "map_sum id formData (run host [Ui ev, Open (Some E)] ?w2) = Inr ?fd"
    unfolding run.simps cl by auto
  then show ?thesis
    by (simp add: o1 run_append ed)
qed

text \<open>The editing scenario, with two edits discarded by the Escape key.\<close>

theorem reopen_seeds_again_witness:
  "\<not> isOpen initial_modal \<and> is_dismissal (KeyDown ''Escape'') \<and>
   map_sum id formData
     (run strict_host
        (Open (Some scenario_todo) #
         map setField [(name_title, ''Y''), (name_dueDate, ''2030-01-01'')] @
         [Ui (KeyDown ''Escape''), Open (Some scenario_todo)]) initial_modal) =
     Inr \<lparr>title = ''X'', description = [], dueDate = ''2024-03-05'', priority = ''high'',
          status = ''pending''\<rparr>"
proof -
  have a: "\<not> isOpen initial_modal" by (simp add: initial_modal_def)
  have b: "is_dismissal (KeyDown ''Escape'')" by simp
  have "map_sum id formData (run strict_host [Open (Some scenario_todo)] initial_modal) =
     Inr \<lparr>title = ''X'', description = [], dueDate = ''2024-03-05'', priority = ''high'',
          status = ''pending''\<rparr>"
    by code_simp
  with reopen_seeds_again [OF a b, of strict_host scenario_todo
      "[(name_title, ''Y''), (name_dueDate, ''2030-01-01'')]"] a b
  show ?thesis by simp
qed

text \<open>
  C8.  Each of the four dismissal triggers leaves the modal closed and the form state
  untouched and calls nothing but \<^verbatim>\<open>onClose\<close>, once, when the modal was open; on a closed
  modal it does nothing at all, so a second dismissal changes nothing and calls nothing.
\<close>

theorem dismissal_never_saves:
  assumes "is_dismissal ev" and "is_dismissal ev'"
  shows "\<not> isOpen (dispatch ev w) \<and>
         formData (dispatch ev w) = formData w \<and>
         trace (dispatch ev w) = trace w @ (if isOpen w then [OnClose] else []) \<and>
         dispatch ev' (dispatch ev w) = dispatch ev w"
proof (cases "isOpen w")
  case True
  with assms(1) have "dispatch ev w = w\<lparr>isOpen := False, trace := trace w @ [OnClose]\<rparr>"
    by (rule dismiss_open)
  then show ?thesis using True by (simp add: dispatch_closed)
next
  case False
  then show ?thesis by (simp add: dispatch_closed)
qed

text \<open>The cancel button, then the Escape key, on a form with an unsaved title.\<close>

theorem dismissal_never_saves_witness:
  "is_dismissal ClickCancelButton \<and> is_dismissal (KeyDown ''Escape'') \<and>
   trace (dispatch (KeyDown ''Escape'') (dispatch ClickCancelButton
     \<lparr>isOpen = True, editingTodo = None, formData = defaultFormState\<lparr>title := ''Draft''\<rparr>,
      trace = [FocusTitle]\<rparr>)) = [FocusTitle, OnClose] \<and>
   formData (dispatch ClickCancelButton
     \<lparr>isOpen = True, editingTodo = None, formData = defaultFormState\<lparr>title := ''Draft''\<rparr>,
      trace = [FocusTitle]\<rparr>) = defaultFormState\<lparr>title := ''Draft''\<rparr>"
proof -
  have a: "is_dismissal ClickCancelButton" by simp
  have b: "is_dismissal (KeyDown ''Escape'')" by simp
  from dismissal_never_saves [OF a b, of
      "\<lparr>isOpen = True, editingTodo = None, formData = defaultFormState\<lparr>title := ''Draft''\<rparr>,
        trace = [FocusTitle]\<rparr>"] a b
  show ?thesis by simp
qed

text \<open>
  C9.  When the title of an open form has a character that is not white space, the
  submission is accepted and the saved record carries the title exactly as it is
  stored, white space at either end included.
\<close>

theorem submit_keeps_title_untrimmed:
  assumes "isOpen w" and "c \<in> set (title (formData w))" and "\<not> is_whitespace c"
  shows "trace (dispatch Submit w) =
           trace w @ [PreventDefault, OnSave (todoToSave w), OnClose] \<and>
         map_of (todoToSave w) ''title'' = Some (Str (title (formData w)))"
proof -
  from assms(2,3) have "\<not> blank (title (formData w))"
    by (auto simp: blank_def list_all_iff)
  with assms(1) show ?thesis by (simp add: submit_ok) (simp add: todoToSave_def)
qed

text \<open>The title \<^verbatim>\<open>x\<close> between two pairs of spaces.\<close>

theorem submit_keeps_title_untrimmed_witness:
  "isOpen \<lparr>isOpen = True, editingTodo = None, formData = defaultFormState\<lparr>title := ''  x  ''\<rparr>,
      trace = []\<rparr> \<and>
   CHR ''x'' \<in> set (title (formData \<lparr>isOpen = True, editingTodo = None,
      formData = defaultFormState\<lparr>title := ''  x  ''\<rparr>, trace = []\<rparr>)) \<and>
   \<not> is_whitespace CHR ''x'' \<and>
   map_of (todoToSave \<lparr>isOpen = True, editingTodo = None,
      formData = defaultFormState\<lparr>title := ''  x  ''\<rparr>, trace = []\<rparr>) ''title'' =
     Some (Str ''  x  '')"
proof -
  let ?w = "\<lparr>isOpen = True, editingTodo = None,
      formData = defaultFormState\<lparr>title := ''  x  ''\<rparr>, trace = []\<rparr>"
  have a: "isOpen ?w" by simp
  have b: "CHR ''x'' \<in> set (title (formData ?w))" by simp
  have c: "\<not> is_whitespace CHR ''x''" by (simp add: is_whitespace_def)
  from submit_keeps_title_untrimmed [OF a b c] a b c show ?thesis by simp
qed

text \<open>
  C10.  When the due date of the entity is the empty string, opening the closed editor
  on it succeeds on every host and seeds the empty string as the due date: no date is
  parsed.
\<close>

theorem open_without_due_date:
  assumes "\<not> isOpen w" and "Todo.dueDate E = []"
  shows "openEditor host (Some E) w =
    Inr \<lparr>isOpen = True, editingTodo = Some E,
         formData =
           \<lparr>title = Todo.title E, description = Todo.description E, dueDate = [],
            priority = Todo.priority E, status = Todo.status E\<rparr>,
         trace = trace w @ [FocusTitle]\<rparr>"
  using assms(1) by (rule open_entity) (simp add: assms(2) dueDate_input_empty)

text \<open>An entity without a due date.\<close>

theorem open_without_due_date_witness:
  "\<not> isOpen initial_modal \<and> Todo.dueDate undated_todo = [] \<and>
   openEditor strict_host (Some undated_todo) initial_modal =
    Inr \<lparr>isOpen = True, editingTodo = Some undated_todo,
         formData =
           \<lparr>title = ''Someday'', description = ''no date'', dueDate = [],
            priority = ''medium'', status = ''in-progress''\<rparr>,
         trace = [FocusTitle]\<rparr>"
proof -
  have a: "\<not> isOpen initial_modal" by (simp add: initial_modal_def)
  have b: "Todo.dueDate undated_todo = []" by (simp add: undated_todo_def)
  from open_without_due_date [OF a b, of strict_host] a b show ?thesis
    by (simp add: undated_todo_def initial_modal_def)
qed

end
